theory Spec2Isabelle
  imports Main
begin

section \<open>JavaScript values, objects and results\<close>

text \<open>
  The stores of \<^verbatim>\<open>database.js\<close> keep two JSON files, each an array of flat objects.
  A stored property value is a JSON primitive; a value at run time may also be
  \<^verbatim>\<open>undefined\<close>, which is \<open>None\<close> here. Numbers are restricted to integers and
  nested arrays and objects are left out: the records hold flat key-value pairs.
  A string is a list of code units below 256.
\<close>

datatype json = JNull | JBool bool | JNum int | JStr string

type_synonym jsval = "json option"

text \<open>
  An object is the map from its property names to their values. Reading a missing
  property gives \<^verbatim>\<open>undefined\<close>, and \<^verbatim>\<open>JSON.stringify\<close> drops a property whose
  value is \<^verbatim>\<open>undefined\<close>, so assigning \<^verbatim>\<open>undefined\<close> is \<open>obj(k := None)\<close>.
  Property order is not represented.
\<close>

type_synonym obj = "string \<rightharpoonup> json"

text \<open>
  A patch is an object literal built by the caller, before any serialisation: a key
  it holds may carry \<^verbatim>\<open>undefined\<close> (\<open>Some None\<close>), which the spread copies.
\<close>

type_synonym patch = "string \<rightharpoonup> jsval"

text \<open>\<^verbatim>\<open>!!v\<close>: the falsy values are undefined, null, false, 0 and the empty string.\<close>

fun truthy :: "jsval \<Rightarrow> bool" where
  "truthy None = False"
| "truthy (Some JNull) = False"
| "truthy (Some (JBool b)) = b"
| "truthy (Some (JNum n)) = (n \<noteq> 0)"
| "truthy (Some (JStr s)) = (s \<noteq> [])"

text \<open>\<^verbatim>\<open>a || b\<close>\<close>

definition js_or :: "jsval \<Rightarrow> jsval \<Rightarrow> jsval" where
  "js_or a b = (if truthy a then a else b)"

text \<open>A default parameter \<^verbatim>\<open>(x = dflt)\<close> replaces \<^verbatim>\<open>undefined\<close> only.\<close>

definition default_param :: "jsval \<Rightarrow> json \<Rightarrow> jsval" where
  "default_param a dflt = (case a of None \<Rightarrow> Some dflt | Some v \<Rightarrow> Some v)"

text \<open>\<^verbatim>\<open>{...a, ...b}\<close>: every key of \<open>b\<close> overrides, also one that carries undefined.\<close>

definition spread :: "obj \<Rightarrow> patch \<Rightarrow> obj" where
  "spread a b = (\<lambda>k. case b k of None \<Rightarrow> a k | Some v \<Rightarrow> v)"

text \<open>\<^verbatim>\<open>Array.prototype.findIndex\<close>; \<open>None\<close> stands for the result \<^verbatim>\<open>-1\<close>.\<close>

fun findIndex :: "('a \<Rightarrow> bool) \<Rightarrow> 'a list \<Rightarrow> nat option" where
  "findIndex P [] = None"
| "findIndex P (x # xs) = (if P x then Some 0 else map_option Suc (findIndex P xs))"

text \<open>\<^verbatim>\<open>xs.splice(i, 1)\<close>\<close>

definition splice1 :: "nat \<Rightarrow> 'a list \<Rightarrow> 'a list" where
  "splice1 i xs = take i xs @ drop (Suc i) xs"

text \<open>
  The operations return \<^verbatim>\<open>{ success: false, message }\<close> on failure. The messages are
  Portuguese sentences; each is one constructor here:
  \<^item> \<open>UserExists\<close>: 'Usuario ou email ja existe'
  \<^item> \<open>ErrCreateUser\<close>: 'Erro ao criar usuario'
  \<^item> \<open>BadCredentials\<close>: 'Usuario ou senha incorretos'
  \<^item> \<open>ErrCreateTask\<close>: 'Erro ao criar tarefa'
  \<^item> \<open>TaskNotFound\<close>: 'Tarefa nao encontrada'
  \<^item> \<open>ErrUpdateTask\<close>: 'Erro ao atualizar tarefa'
  \<^item> \<open>ErrDeleteTask\<close>: 'Erro ao excluir tarefa'
  \<^item> \<open>TitleRequired\<close>: 'O titulo da tarefa e obrigatorio.' (the route of server.js)
  \<^item> \<open>NotAuthorized\<close>: 'Nao autorizado' (requireAuth)
\<close>

datatype failure =
    UserExists | ErrCreateUser | BadCredentials | ErrCreateTask | TaskNotFound
  | ErrUpdateTask | ErrDeleteTask | TitleRequired | NotAuthorized

text \<open>The taxonomy of the specification, and the member each message belongs to.\<close>

datatype failure_kind = Conflict | Unauthorized | ValidationError | NotFound | PersistenceFailure

fun kind_of :: "failure \<Rightarrow> failure_kind" where
  "kind_of UserExists = Conflict"
| "kind_of ErrCreateUser = PersistenceFailure"
| "kind_of BadCredentials = Unauthorized"
| "kind_of ErrCreateTask = PersistenceFailure"
| "kind_of TaskNotFound = NotFound"
| "kind_of ErrUpdateTask = PersistenceFailure"
| "kind_of ErrDeleteTask = PersistenceFailure"
| "kind_of TitleRequired = ValidationError"
| "kind_of NotAuthorized = Unauthorized"

section \<open>The disk and the environment of a call\<close>

text \<open>
  The state is the content of the two files as \<^verbatim>\<open>JSON.parse\<close> returns it. \<open>None\<close> is a
  file whose read throws (missing, unreadable, or not JSON). A readable file holds an
  array of objects, which is all the program ever writes.
\<close>

record disk =
  users_file :: "obj list option"
  tasks_file :: "obj list option"

text \<open>
  What a call takes from outside: the token \<^verbatim>\<open>generateId()\<close> returns, the strings the
  first and the second \<^verbatim>\<open>new Date().toISOString()\<close> return, and whether
  \<^verbatim>\<open>fs.writeFileSync\<close> returns (or throws). A write that throws leaves the file as it was.
\<close>

record env =
  gen_id :: string
  now1 :: string
  now2 :: string
  write_ok :: bool

section \<open>config.js\<close>

text \<open>
  \<^verbatim>\<open>String.prototype.trim\<close> removes white space and line terminators at both ends;
  below 256 these are the code units 9 to 13, 32 and 160.
\<close>

definition is_js_space :: "char \<Rightarrow> bool" where
  "is_js_space c = (of_char c \<in> {9, 10, 11, 12, 13, 32, 160 :: nat})"

definition trim :: "string \<Rightarrow> string" where
  "trim s = rev (dropWhile is_js_space (rev (dropWhile is_js_space s)))"

definition sanitizeInput :: "jsval \<Rightarrow> jsval" where
  "sanitizeInput data =
     (case data of
        Some (JStr s) \<Rightarrow> Some (JStr (filter (\<lambda>c. c \<noteq> CHR ''<'' \<and> c \<noteq> CHR ''>'') (trim s)))
      | _ \<Rightarrow> data)"

text \<open>
  The digest is SHA-256 of Node's crypto module, in hexadecimal: a parameter
  \<open>sha256hex\<close> of every function that uses it.
\<close>

definition hashPassword :: "(string \<Rightarrow> string) \<Rightarrow> string \<Rightarrow> string" where
  "hashPassword sha256hex password = sha256hex password"

definition verifyPassword :: "(string \<Rightarrow> string) \<Rightarrow> string \<Rightarrow> jsval \<Rightarrow> bool" where
  "verifyPassword sha256hex password hash = (Some (JStr (sha256hex password)) = hash)"

section \<open>database.js: users\<close>

definition getUsers :: "disk \<Rightarrow> obj list" where
  "getUsers d = (case users_file d of None \<Rightarrow> [] | Some users \<Rightarrow> users)"

definition saveUsers :: "env \<Rightarrow> disk \<Rightarrow> obj list \<Rightarrow> bool \<times> disk" where
  "saveUsers e d users =
     (if write_ok e then (True, d\<lparr>users_file := Some users\<rparr>) else (False, d))"

definition new_user :: "string \<Rightarrow> jsval \<Rightarrow> jsval \<Rightarrow> string \<Rightarrow> string \<Rightarrow> obj" where
  "new_user uid username email digest created =
     (Map.empty(''id'' \<mapsto> JStr uid))
       (''username'' := username, ''email'' := email,
        ''password'' := Some (JStr digest), ''createdAt'' := Some (JStr created))"

definition createUser ::
  "(string \<Rightarrow> string) \<Rightarrow> disk \<Rightarrow> env \<Rightarrow> jsval \<Rightarrow> jsval \<Rightarrow> string \<Rightarrow> (failure + string) \<times> disk" where
  "createUser sha256hex d e username email password =
     (let users = getUsers d in
      case find (\<lambda>user. user ''username'' = username \<or> user ''email'' = email) users of
        Some existingUser \<Rightarrow> (Inl UserExists, d)
      | None \<Rightarrow>
          (let newUser = new_user (gen_id e) username email
                           (hashPassword sha256hex password) (now1 e)
           in case saveUsers e d (users @ [newUser]) of
                (True, d') \<Rightarrow> (Inr (gen_id e), d')
              | (False, d') \<Rightarrow> (Inl ErrCreateUser, d')))"

text \<open>The view \<^verbatim>\<open>{ id: user.id, username: user.username, email: user.email }\<close>.\<close>

definition user_view :: "obj \<Rightarrow> obj" where
  "user_view user =
     Map.empty(''id'' := user ''id'', ''username'' := user ''username'', ''email'' := user ''email'')"

definition authenticateUser ::
  "(string \<Rightarrow> string) \<Rightarrow> disk \<Rightarrow> jsval \<Rightarrow> string \<Rightarrow> failure + obj" where
  "authenticateUser sha256hex d username password =
     (case find (\<lambda>user. (user ''username'' = username \<or> user ''email'' = username) \<and>
                         verifyPassword sha256hex password (user ''password''))
             (getUsers d) of
        Some user \<Rightarrow> Inr (user_view user)
      | None \<Rightarrow> Inl BadCredentials)"

definition getUserById :: "disk \<Rightarrow> jsval \<Rightarrow> obj option" where
  "getUserById d userId =
     (case find (\<lambda>user. user ''id'' = userId) (getUsers d) of
        Some user \<Rightarrow> Some (user_view user)
      | None \<Rightarrow> None)"

section \<open>database.js: tasks\<close>

definition getTasks :: "disk \<Rightarrow> jsval \<Rightarrow> obj list" where
  "getTasks d userId =
     (case tasks_file d of
        None \<Rightarrow> []
      | Some allTasks \<Rightarrow>
          if truthy userId then filter (\<lambda>task. task ''userId'' = userId) allTasks
          else allTasks)"

definition saveTasks :: "env \<Rightarrow> disk \<Rightarrow> obj list \<Rightarrow> bool \<times> disk" where
  "saveTasks e d tasks =
     (if write_ok e then (True, d\<lparr>tasks_file := Some tasks\<rparr>) else (False, d))"

definition new_task ::
  "string \<Rightarrow> jsval \<Rightarrow> jsval \<Rightarrow> jsval \<Rightarrow> jsval \<Rightarrow> string \<Rightarrow> string \<Rightarrow> obj" where
  "new_task tid userId title description priority created updated =
     (Map.empty(''id'' \<mapsto> JStr tid))
       (''userId'' := userId, ''title'' := title, ''description'' := description,
        ''priority'' := priority, ''completed'' := Some (JBool False),
        ''createdAt'' := Some (JStr created), ''updatedAt'' := Some (JStr updated))"

definition createTask ::
  "disk \<Rightarrow> env \<Rightarrow> jsval \<Rightarrow> jsval \<Rightarrow> jsval \<Rightarrow> jsval \<Rightarrow> (failure + string) \<times> disk" where
  "createTask d e userId title description0 priority0 =
     (let description = default_param description0 (JStr '''');
          priority = default_param priority0 (JStr ''medium'');
          tasks = getTasks d (Some JNull);
          newTask = new_task (gen_id e) userId title description priority (now1 e) (now2 e)
      in case saveTasks e d (tasks @ [newTask]) of
           (True, d') \<Rightarrow> (Inr (gen_id e), d')
         | (False, d') \<Rightarrow> (Inl ErrCreateTask, d'))"

definition updateTask ::
  "disk \<Rightarrow> env \<Rightarrow> jsval \<Rightarrow> jsval \<Rightarrow> patch \<Rightarrow> (failure + unit) \<times> disk" where
  "updateTask d e taskId userId data =
     (let tasks = getTasks d (Some JNull) in
      case findIndex (\<lambda>task. task ''id'' = taskId \<and> task ''userId'' = userId) tasks of
        None \<Rightarrow> (Inl TaskNotFound, d)
      | Some taskIndex \<Rightarrow>
          (let tasks' = tasks[taskIndex :=
                          (spread (tasks ! taskIndex) data)(''updatedAt'' \<mapsto> JStr (now1 e))]
           in case saveTasks e d tasks' of
                (True, d') \<Rightarrow> (Inr (), d')
              | (False, d') \<Rightarrow> (Inl ErrUpdateTask, d')))"

definition deleteTask ::
  "disk \<Rightarrow> env \<Rightarrow> jsval \<Rightarrow> jsval \<Rightarrow> (failure + unit) \<times> disk" where
  "deleteTask d e taskId userId =
     (let tasks = getTasks d (Some JNull) in
      case findIndex (\<lambda>task. task ''id'' = taskId \<and> task ''userId'' = userId) tasks of
        None \<Rightarrow> (Inl TaskNotFound, d)
      | Some taskIndex \<Rightarrow>
          (case saveTasks e d (splice1 taskIndex tasks) of
             (True, d') \<Rightarrow> (Inr (), d')
           | (False, d') \<Rightarrow> (Inl ErrDeleteTask, d')))"

text \<open>
  The toggle assigns \<^verbatim>\<open>completed\<close> and \<^verbatim>\<open>updatedAt\<close> in place and returns the new
  \<^verbatim>\<open>completed\<close>, the boolean \<^verbatim>\<open>!old\<close>.
\<close>

definition toggled :: "string \<Rightarrow> obj \<Rightarrow> obj" where
  "toggled stamp task =
     task(''completed'' \<mapsto> JBool (\<not> truthy (task ''completed'')), ''updatedAt'' \<mapsto> JStr stamp)"

definition toggleTaskCompletion ::
  "disk \<Rightarrow> env \<Rightarrow> jsval \<Rightarrow> jsval \<Rightarrow> (failure + bool) \<times> disk" where
  "toggleTaskCompletion d e taskId userId =
     (let tasks = getTasks d (Some JNull) in
      case findIndex (\<lambda>task. task ''id'' = taskId \<and> task ''userId'' = userId) tasks of
        None \<Rightarrow> (Inl TaskNotFound, d)
      | Some taskIndex \<Rightarrow>
          (let tasks' = tasks[taskIndex := toggled (now1 e) (tasks ! taskIndex)]
           in case saveTasks e d tasks' of
                (True, d') \<Rightarrow> (Inr (\<not> truthy ((tasks ! taskIndex) ''completed'')), d')
              | (False, d') \<Rightarrow> (Inl ErrUpdateTask, d')))"

record priority_stats =
  high :: int
  medium :: int
  low :: int

record task_stats =
  total :: int
  completed :: int
  pending :: int
  byPriority :: priority_stats

definition getTaskStats :: "disk \<Rightarrow> jsval \<Rightarrow> task_stats" where
  "getTaskStats d userId =
     (let tasks = getTasks d userId;
          total = int (length tasks);
          completed = int (length (filter (\<lambda>task. truthy (task ''completed'')) tasks));
          pending = total - completed
      in \<lparr>total = total, completed = completed, pending = pending,
          byPriority =
            \<lparr>high = int (length (filter (\<lambda>task. \<not> truthy (task ''completed'') \<and>
                                   task ''priority'' = Some (JStr ''high'')) tasks)),
             medium = int (length (filter (\<lambda>task. \<not> truthy (task ''completed'') \<and>
                                   task ''priority'' = Some (JStr ''medium'')) tasks)),
             low = int (length (filter (\<lambda>task. \<not> truthy (task ''completed'') \<and>
                                   task ''priority'' = Some (JStr ''low'')) tasks))\<rparr>\<rparr>)"

section \<open>server.js: the route that creates a task\<close>

text \<open>
  \<^verbatim>\<open>app.post('/api/tasks', requireAuth, ...)\<close>: the session's user id, then the body's
  \<^verbatim>\<open>title\<close>, \<^verbatim>\<open>description\<close> and \<^verbatim>\<open>priority\<close>. The title is tested before it is
  sanitized.
\<close>

definition post_api_tasks :: "disk \<Rightarrow> env \<Rightarrow> jsval \<Rightarrow> obj \<Rightarrow> (failure + unit) \<times> disk" where
  "post_api_tasks d e sessionUserId body =
     (if \<not> truthy sessionUserId then (Inl NotAuthorized, d)
      else
        (let title = body ''title'';
             description = body ''description'';
             priority = body ''priority''
         in if \<not> truthy title then (Inl TitleRequired, d)
            else
              (case createTask d e sessionUserId (sanitizeInput title)
                      (sanitizeInput (js_or description (Some (JStr ''''))))
                      (sanitizeInput (js_or priority (Some (JStr ''medium'')))) of
                 (Inr taskId, d') \<Rightarrow> (Inr (), d')
               | (Inl message, d') \<Rightarrow> (Inl message, d'))))"

section \<open>The properties, in the specification's words\<close>

text \<open>
  \<open>owned\<close> is the test of \<^verbatim>\<open>updateTask\<close>, \<^verbatim>\<open>deleteTask\<close> and
  \<^verbatim>\<open>toggleTaskCompletion\<close>: a task matches a task id together with a user id.
  \<open>users_unique\<close> is the invariant of the user collection, and \<open>createUsers\<close> runs a
  sequence of \<^verbatim>\<open>createUser\<close> calls, failed ones included. \<open>credentials_match\<close>: the
  identifier is the user's username or email and the digest of the password is the stored
  one. \<open>incomplete_of\<close>: a user's incomplete tasks of one priority. \<open>valid_priority\<close>: one
  of low, medium, high; \<open>apply_op\<close> runs a create or an update, and
  \<open>supplied_priority_ok\<close> says that the priority the caller supplies to it, if any, is
  one of the three.
\<close>

definition owned :: "jsval \<Rightarrow> jsval \<Rightarrow> obj \<Rightarrow> bool" where
  "owned taskId userId task = (task ''id'' = taskId \<and> task ''userId'' = userId)"

definition users_unique :: "obj list \<Rightarrow> bool" where
  "users_unique users =
     (distinct (map (\<lambda>user. user ''username'') users) \<and>
      distinct (map (\<lambda>user. user ''email'') users))"

fun createUsers ::
  "(string \<Rightarrow> string) \<Rightarrow> disk \<Rightarrow> (env \<times> jsval \<times> jsval \<times> string) list \<Rightarrow> disk" where
  "createUsers sha256hex d [] = d"
| "createUsers sha256hex d ((e, username, email, password) # calls) =
     createUsers sha256hex (snd (createUser sha256hex d e username email password)) calls"

definition credentials_match :: "(string \<Rightarrow> string) \<Rightarrow> jsval \<Rightarrow> string \<Rightarrow> obj \<Rightarrow> bool" where
  "credentials_match sha256hex ident password user =
     ((user ''username'' = ident \<or> user ''email'' = ident) \<and>
      user ''password'' = Some (JStr (sha256hex password)))"

definition incomplete_of :: "obj list \<Rightarrow> jsval \<Rightarrow> string \<Rightarrow> obj list" where
  "incomplete_of allTasks userId p =
     filter (\<lambda>task. task ''userId'' = userId \<and> \<not> truthy (task ''completed'') \<and>
                    task ''priority'' = Some (JStr p)) allTasks"

definition valid_priority :: "jsval \<Rightarrow> bool" where
  "valid_priority p =
     (p = Some (JStr ''low'') \<or> p = Some (JStr ''medium'') \<or> p = Some (JStr ''high''))"

datatype task_op = Create env jsval jsval jsval jsval | Update env jsval jsval patch

fun apply_op :: "disk \<Rightarrow> task_op \<Rightarrow> disk" where
  "apply_op d (Create e userId title description priority) =
     snd (createTask d e userId title description priority)"
| "apply_op d (Update e taskId userId data) = snd (updateTask d e taskId userId data)"

fun supplied_priority_ok :: "task_op \<Rightarrow> bool" where
  "supplied_priority_ok (Create e userId title description priority) =
     (priority = None \<or> valid_priority priority)"
| "supplied_priority_ok (Update e taskId userId data) =
     (case data ''priority'' of None \<Rightarrow> True | Some p \<Rightarrow> valid_priority p)"

definition priorities_valid :: "disk \<Rightarrow> bool" where
  "priorities_valid d =
     list_all (\<lambda>task. valid_priority (task ''priority'')) (getTasks d (Some JNull))"

section \<open>Example data\<close>

definition alice_task :: obj where
  "alice_task = new_task ''t1'' (Some (JStr ''alice'')) (Some (JStr ''Buy milk''))
                  (Some (JStr '''')) (Some (JStr ''high'')) ''2024-01-01'' ''2024-01-01''"

definition bob_task :: obj where
  "bob_task = new_task ''t2'' (Some (JStr ''bob'')) (Some (JStr ''Walk dog''))
                  (Some (JStr '''')) (Some (JStr ''low'')) ''2024-01-02'' ''2024-01-02''"

definition disk1 :: disk where
  "disk1 = \<lparr>users_file = Some [], tasks_file = Some [alice_task, bob_task]\<rparr>"

definition env1 :: env where
  "env1 = \<lparr>gen_id = ''t3'', now1 = ''2024-02-01'', now2 = ''2024-02-02'', write_ok = True\<rparr>"

text \<open>
  Patches, request bodies, a write that fails, unreadable files, and a stand-in for the
  digest on which the examples can be computed.
\<close>

definition retitle :: patch where
  "retitle = Map.empty(''title'' \<mapsto> Some (JStr ''Buy bread''))"

definition rekey :: patch where
  "rekey = Map.empty(''id'' \<mapsto> Some (JStr ''t9''), ''userId'' \<mapsto> Some (JStr ''bob''))"

definition set_low :: patch where
  "set_low = Map.empty(''priority'' \<mapsto> Some (JStr ''low''))"

definition take_id :: patch where
  "take_id = Map.empty(''id'' \<mapsto> Some (JStr ''t1''))"

definition disk_dup :: disk where
  "disk_dup = snd (updateTask disk1 env1 (Some (JStr ''t2'')) (Some (JStr ''bob'')) take_id)"

definition env_fail :: env where
  "env_fail = \<lparr>gen_id = ''t4'', now1 = ''2024-03-01'', now2 = ''2024-03-01'', write_ok = False\<rparr>"

definition disk_unreadable :: disk where
  "disk_unreadable = \<lparr>users_file = None, tasks_file = None\<rparr>"

definition blank_title :: obj where
  "blank_title = Map.empty(''title'' \<mapsto> JStr ''   '')"

definition angle_title :: obj where
  "angle_title = Map.empty(''title'' \<mapsto> JStr '' <> '', ''priority'' \<mapsto> JStr ''high'')"

definition empty_title :: obj where
  "empty_title = Map.empty(''title'' \<mapsto> JStr '''')"

definition toy_digest :: "string \<Rightarrow> string" where
  "toy_digest s = CHR ''#'' # rev s"

definition disk0 :: disk where
  "disk0 = \<lparr>users_file = Some [], tasks_file = Some []\<rparr>"

definition env_u1 :: env where
  "env_u1 = \<lparr>gen_id = ''u1'', now1 = ''2024-01-01'', now2 = ''2024-01-01'', write_ok = True\<rparr>"

definition env_u2 :: env where
  "env_u2 = \<lparr>gen_id = ''u2'', now1 = ''2024-01-02'', now2 = ''2024-01-02'', write_ok = True\<rparr>"

definition two_users :: disk where
  "two_users = createUsers toy_digest disk0
     [(env_u1, Some (JStr ''alice''), Some (JStr ''alice@example.org''), ''wonderland''),
      (env_u2, Some (JStr ''Alice''), Some (JStr ''bob@example.org''), ''builder'')]"

section \<open>Basic facts\<close>

lemma findIndex_None_iff: "findIndex P xs = None \<longleftrightarrow> (\<forall>x \<in> set xs. \<not> P x)"
  by (induction xs) auto

lemma findIndex_Some_D:
  "findIndex P xs = Some i \<Longrightarrow> i < length xs \<and> P (xs ! i) \<and> (\<forall>j < i. \<not> P (xs ! j))"
proof (induction xs arbitrary: i)
  case Nil
  then show ?case by simp
next
  case (Cons x xs)
  show ?case
  proof (cases "P x")
    case True
    with Cons.prems show ?thesis by simp
  next
    case False
    with Cons.prems obtain k where k: "findIndex P xs = Some k" "i = Suc k"
      by auto
    from Cons.IH [OF k(1)] False k(2) show ?thesis
      by (auto simp: nth_Cons split: nat.splits)
  qed
qed

lemma getTasks_all: "tasks_file d = Some tasks \<Longrightarrow> getTasks d (Some JNull) = tasks"
  by (simp add: getTasks_def)

lemma saveTasks_ok: "write_ok e \<Longrightarrow> saveTasks e d ts = (True, d\<lparr>tasks_file := Some ts\<rparr>)"
  by (simp add: saveTasks_def)

lemma getTasks_saved: "getTasks (d\<lparr>tasks_file := Some ts\<rparr>) (Some JNull) = ts"
  by (simp add: getTasks_def)

lemma getTasks_unreadable: "tasks_file d = None \<Longrightarrow> getTasks d userId = []"
  by (simp add: getTasks_def)

lemma createTask_cases:
  "createTask d e userId title description priority =
     (if write_ok e
      then (Inr (gen_id e),
            d\<lparr>tasks_file := Some (getTasks d (Some JNull) @
              [new_task (gen_id e) userId title (default_param description (JStr ''''))
                 (default_param priority (JStr ''medium'')) (now1 e) (now2 e)])\<rparr>)
      else (Inl ErrCreateTask, d))"
  by (simp add: createTask_def saveTasks_def Let_def)

lemma createTask_Inr:
  assumes "createTask d e userId title description priority = (Inr tid, d')"
  shows "write_ok e \<and> tid = gen_id e \<and>
         d' = d\<lparr>tasks_file := Some (getTasks d (Some JNull) @
                [new_task (gen_id e) userId title (default_param description (JStr ''''))
                   (default_param priority (JStr ''medium'')) (now1 e) (now2 e)])\<rparr>"
  using assms by (cases "write_ok e") (auto simp: createTask_def saveTasks_def Let_def)

lemma updateTask_cases:
  "updateTask d e taskId userId data =
     (case findIndex (\<lambda>task. task ''id'' = taskId \<and> task ''userId'' = userId)
             (getTasks d (Some JNull)) of
        None \<Rightarrow> (Inl TaskNotFound, d)
      | Some i \<Rightarrow>
          if write_ok e
          then (Inr (), d\<lparr>tasks_file := Some ((getTasks d (Some JNull))
                  [i := (spread (getTasks d (Some JNull) ! i) data)(''updatedAt'' \<mapsto> JStr (now1 e))])\<rparr>)
          else (Inl ErrUpdateTask, d))"
  by (simp add: updateTask_def saveTasks_def Let_def split: option.splits)

lemma updateTask_Inr:
  assumes "updateTask d e taskId userId data = (Inr u, d')"
  shows "\<exists>i. findIndex (\<lambda>task. task ''id'' = taskId \<and> task ''userId'' = userId)
                (getTasks d (Some JNull)) = Some i \<and> write_ok e \<and>
             d' = d\<lparr>tasks_file := Some ((getTasks d (Some JNull))
                    [i := (spread (getTasks d (Some JNull) ! i) data)(''updatedAt'' \<mapsto> JStr (now1 e))])\<rparr>"
  using assms
  by (cases "write_ok e")
     (auto simp: updateTask_def saveTasks_def Let_def split: option.splits)

lemma deleteTask_cases:
  "deleteTask d e taskId userId =
     (case findIndex (\<lambda>task. task ''id'' = taskId \<and> task ''userId'' = userId)
             (getTasks d (Some JNull)) of
        None \<Rightarrow> (Inl TaskNotFound, d)
      | Some i \<Rightarrow>
          if write_ok e
          then (Inr (), d\<lparr>tasks_file := Some (splice1 i (getTasks d (Some JNull)))\<rparr>)
          else (Inl ErrDeleteTask, d))"
  by (simp add: deleteTask_def saveTasks_def Let_def split: option.splits)

lemma deleteTask_Inr:
  assumes "deleteTask d e taskId userId = (Inr u, d')"
  shows "\<exists>i. findIndex (\<lambda>task. task ''id'' = taskId \<and> task ''userId'' = userId)
                (getTasks d (Some JNull)) = Some i \<and> write_ok e \<and>
             d' = d\<lparr>tasks_file := Some (splice1 i (getTasks d (Some JNull)))\<rparr>"
  using assms
  by (cases "write_ok e")
     (auto simp: deleteTask_def saveTasks_def Let_def split: option.splits)

lemma toggle_cases:
  "toggleTaskCompletion d e taskId userId =
     (case findIndex (\<lambda>task. task ''id'' = taskId \<and> task ''userId'' = userId)
             (getTasks d (Some JNull)) of
        None \<Rightarrow> (Inl TaskNotFound, d)
      | Some i \<Rightarrow>
          if write_ok e
          then (Inr (\<not> truthy ((getTasks d (Some JNull) ! i) ''completed'')),
                d\<lparr>tasks_file := Some ((getTasks d (Some JNull))
                  [i := toggled (now1 e) (getTasks d (Some JNull) ! i)])\<rparr>)
          else (Inl ErrUpdateTask, d))"
  by (simp add: toggleTaskCompletion_def saveTasks_def Let_def split: option.splits)


lemma toggle_Inr:
  assumes "toggleTaskCompletion d e taskId userId = (Inr c, d')"
  shows "\<exists>i. findIndex (\<lambda>task. task ''id'' = taskId \<and> task ''userId'' = userId)
                (getTasks d (Some JNull)) = Some i \<and> write_ok e \<and>
             c = (\<not> truthy ((getTasks d (Some JNull) ! i) ''completed'')) \<and>
             d' = d\<lparr>tasks_file := Some ((getTasks d (Some JNull))
                    [i := toggled (now1 e) (getTasks d (Some JNull) ! i)])\<rparr>"
  using assms
  by (cases "write_ok e")
     (auto simp: toggleTaskCompletion_def saveTasks_def Let_def split: option.splits)


lemma getUsers_saved: "getUsers (d\<lparr>users_file := Some users\<rparr>) = users"
  by (simp add: getUsers_def)

lemma getUsers_unreadable: "users_file d = None \<Longrightarrow> getUsers d = []"
  by (simp add: getUsers_def)

lemma new_user_fields:
  "new_user uid username email digest created ''id'' = Some (JStr uid)"
  "new_user uid username email digest created ''username'' = username"
  "new_user uid username email digest created ''email'' = email"
  "new_user uid username email digest created ''password'' = Some (JStr digest)"
  "new_user uid username email digest created ''createdAt'' = Some (JStr created)"
  by (simp_all add: new_user_def)

lemma createUser_cases:
  "createUser sha256hex d e username email password =
     (if \<exists>user \<in> set (getUsers d). user ''username'' = username \<or> user ''email'' = email
      then (Inl UserExists, d)
      else if write_ok e
      then (Inr (gen_id e),
            d\<lparr>users_file := Some (getUsers d @
              [new_user (gen_id e) username email (sha256hex password) (now1 e)])\<rparr>)
      else (Inl ErrCreateUser, d))"
proof (cases "find (\<lambda>user. user ''username'' = username \<or> user ''email'' = email) (getUsers d)")
  case None
  then have "\<not> (\<exists>user \<in> set (getUsers d). user ''username'' = username \<or> user ''email'' = email)"
    by (simp add: find_None_iff)
  with None show ?thesis
    by (simp add: createUser_def saveUsers_def hashPassword_def Let_def)
next
  case (Some user)
  then have "\<exists>user \<in> set (getUsers d). user ''username'' = username \<or> user ''email'' = email"
    by (auto simp: find_Some_iff)
  with Some show ?thesis
    by (simp add: createUser_def Let_def)
qed

lemma authenticateUser_cases:
  "authenticateUser sha256hex d ident password =
     (case find (credentials_match sha256hex ident password) (getUsers d) of
        Some user \<Rightarrow> Inr (user_view user)
      | None \<Rightarrow> Inl BadCredentials)"
proof -
  have "(\<lambda>user. (user ''username'' = ident \<or> user ''email'' = ident) \<and>
           verifyPassword sha256hex password (user ''password'')) =
        credentials_match sha256hex ident password"
    by (auto simp: credentials_match_def verifyPassword_def fun_eq_iff)
  then show ?thesis
    by (simp add: authenticateUser_def)
qed

lemma dom_user_view: "dom (user_view user) \<subseteq> {''id'', ''username'', ''email''}"
  by (auto simp: user_view_def split: if_splits)

lemma two_users_eq:
  "two_users = \<lparr>users_file = Some
       [new_user ''u1'' (Some (JStr ''alice'')) (Some (JStr ''alice@example.org''))
          (toy_digest ''wonderland'') ''2024-01-01'',
        new_user ''u2'' (Some (JStr ''Alice'')) (Some (JStr ''bob@example.org''))
          (toy_digest ''builder'') ''2024-01-02''],
      tasks_file = Some []\<rparr>"
  by (simp add: two_users_def createUser_cases disk0_def getUsers_def env_u1_def env_u2_def
        new_user_fields)

lemma trim_blank: "trim ''   '' = ''''"
  by (simp add: trim_def is_js_space_def)

lemma trim_angle: "trim '' <> '' = ''<>''"
  by (simp add: trim_def is_js_space_def)

section \<open>Ownership isolation\<close>

lemma no_match_of_distinct:
  assumes "T \<in> set tasks" "T ''id'' = taskId" "T ''userId'' = userA" "userB \<noteq> userA"
    and "distinct (map (\<lambda>task. task ''id'') tasks)"
  shows "findIndex (\<lambda>task. task ''id'' = taskId \<and> task ''userId'' = userB) tasks = None"
proof -
  have "task = T" if "task \<in> set tasks" "task ''id'' = taskId" for task
    using that assms(1,2,5) by (metis distinct_map inj_on_def)
  then show ?thesis
    using assms(3,4) by (auto simp: findIndex_None_iff)
qed

lemma disk_dup_tasks:
  "getTasks disk_dup (Some JNull) =
     [alice_task, (spread bob_task take_id)(''updatedAt'' \<mapsto> JStr ''2024-02-01'')]"
proof -
  have ts: "getTasks disk1 (Some JNull) = [alice_task, bob_task]"
    by (simp add: getTasks_def disk1_def)
  have ids: "alice_task ''id'' = Some (JStr ''t1'')" "bob_task ''id'' = Some (JStr ''t2'')"
    "bob_task ''userId'' = Some (JStr ''bob'')"
    by (simp_all add: alice_task_def bob_task_def new_task_def)
  show ?thesis
    by (simp add: disk_dup_def updateTask_cases ts ids getTasks_saved env1_def)
qed

lemma list_update_frame:
  assumes "findIndex (\<lambda>task. task ''id'' = taskId \<and> task ''userId'' = userB) ts = Some i"
  shows "length (ts[i := t]) = length ts \<and>
         (\<forall>j < length ts. (ts ! j) ''userId'' \<noteq> userB \<longrightarrow> ts[i := t] ! j = ts ! j)"
proof -
  from findIndex_Some_D [OF assms] have own: "(ts ! i) ''userId'' = userB"
    by simp
  have "ts[i := t] ! j = ts ! j" if "(ts ! j) ''userId'' \<noteq> userB" for j
  proof -
    from that own have "i \<noteq> j" by auto
    then show ?thesis by simp
  qed
  then show ?thesis by simp
qed

lemma splice1_frame:
  assumes "findIndex (\<lambda>task. task ''id'' = taskId \<and> task ''userId'' = userB) ts = Some i"
  shows "filter (\<lambda>task. task ''userId'' \<noteq> userB) (splice1 i ts) =
         filter (\<lambda>task. task ''userId'' \<noteq> userB) ts"
proof -
  from findIndex_Some_D [OF assms] have i: "i < length ts" and own: "(ts ! i) ''userId'' = userB"
    by simp_all
  have "ts = take i ts @ ts ! i # drop (Suc i) ts"
    using i by (rule id_take_nth_drop)
  then have "filter (\<lambda>task. task ''userId'' \<noteq> userB) ts =
      filter (\<lambda>task. task ''userId'' \<noteq> userB) (take i ts @ ts ! i # drop (Suc i) ts)"
    by simp
  also have "\<dots> = filter (\<lambda>task. task ''userId'' \<noteq> userB) (splice1 i ts)"
    using own by (simp add: splice1_def)
  finally show ?thesis by simp
qed

lemma update_frame:
  "length (getTasks (snd (updateTask d e taskId userB data)) (Some JNull)) =
     length (getTasks d (Some JNull)) \<and>
   (\<forall>j < length (getTasks d (Some JNull)).
      (getTasks d (Some JNull) ! j) ''userId'' \<noteq> userB \<longrightarrow>
      getTasks (snd (updateTask d e taskId userB data)) (Some JNull) ! j =
        getTasks d (Some JNull) ! j)"
proof (cases "findIndex (\<lambda>task. task ''id'' = taskId \<and> task ''userId'' = userB)
                (getTasks d (Some JNull))")
  case None
  then show ?thesis by (simp add: updateTask_cases)
next
  case (Some i)
  from list_update_frame [OF Some] Some show ?thesis
    by (simp add: updateTask_cases getTasks_saved)
qed

lemma toggle_frame:
  "length (getTasks (snd (toggleTaskCompletion d e taskId userB)) (Some JNull)) =
     length (getTasks d (Some JNull)) \<and>
   (\<forall>j < length (getTasks d (Some JNull)).
      (getTasks d (Some JNull) ! j) ''userId'' \<noteq> userB \<longrightarrow>
      getTasks (snd (toggleTaskCompletion d e taskId userB)) (Some JNull) ! j =
        getTasks d (Some JNull) ! j)"
proof (cases "findIndex (\<lambda>task. task ''id'' = taskId \<and> task ''userId'' = userB)
                (getTasks d (Some JNull))")
  case None
  then show ?thesis by (simp add: toggle_cases)
next
  case (Some i)
  from list_update_frame [OF Some] Some show ?thesis
    by (simp add: toggle_cases getTasks_saved)
qed

lemma delete_frame:
  "filter (\<lambda>task. task ''userId'' \<noteq> userB)
     (getTasks (snd (deleteTask d e taskId userB)) (Some JNull)) =
   filter (\<lambda>task. task ''userId'' \<noteq> userB) (getTasks d (Some JNull))"
proof (cases "findIndex (\<lambda>task. task ''id'' = taskId \<and> task ''userId'' = userB)
                (getTasks d (Some JNull))")
  case None
  then show ?thesis by (simp add: deleteTask_cases)
next
  case (Some i)
  from splice1_frame [OF Some] Some show ?thesis
    by (simp add: deleteTask_cases getTasks_saved)
qed

lemma kept_by_index:
  assumes "T \<in> set ts" and "T ''userId'' \<noteq> userB"
    and "length ts' = length ts"
    and "\<forall>j < length ts. (ts ! j) ''userId'' \<noteq> userB \<longrightarrow> ts' ! j = ts ! j"
  shows "T \<in> set ts'"
proof -
  from assms(1) obtain j where j: "j < length ts" "ts ! j = T"
    by (auto simp: in_set_conv_nth)
  with assms(2,4) have "ts' ! j = T" by auto
  with j(1) assms(3) show ?thesis
    by (auto simp: in_set_conv_nth)
qed

lemma kept_by_filter:
  assumes "T \<in> set ts" and "T ''userId'' \<noteq> userB"
    and "filter (\<lambda>task. task ''userId'' \<noteq> userB) ts' =
         filter (\<lambda>task. task ''userId'' \<noteq> userB) ts"
  shows "T \<in> set ts'"
proof -
  from assms(1,2) have "T \<in> set (filter (\<lambda>task. task ''userId'' \<noteq> userB) ts)"
    by simp
  then have "T \<in> set (filter (\<lambda>task. task ''userId'' \<noteq> userB) ts')"
    by (simp only: assms(3))
  then show ?thesis by simp
qed

text \<open>
  The three operations look for a task that carries the task id and the caller's user id
  together, and nothing keeps task ids unique. When Bob owns a task with the id of Alice's
  task (here after an update of his own task with a patch that holds \<^verbatim>\<open>id\<close>), his calls
  with that id succeed, on his own task, and the collection changes.
\<close>

theorem shared_id_breaks_isolation:
  "alice_task \<in> set (getTasks disk_dup (Some JNull)) \<and>
   alice_task ''id'' = Some (JStr ''t1'') \<and>
   alice_task ''userId'' = Some (JStr ''alice'') \<and>
   fst (updateTask disk_dup env1 (Some (JStr ''t1'')) (Some (JStr ''bob'')) retitle) = Inr () \<and>
   fst (toggleTaskCompletion disk_dup env1 (Some (JStr ''t1'')) (Some (JStr ''bob''))) = Inr True \<and>
   deleteTask disk_dup env1 (Some (JStr ''t1'')) (Some (JStr ''bob'')) =
     (Inr (), disk_dup\<lparr>tasks_file := Some [alice_task]\<rparr>)"
proof -
  let ?b = "(spread bob_task take_id)(''updatedAt'' \<mapsto> JStr ''2024-02-01'')"
  have a: "alice_task ''id'' = Some (JStr ''t1'')" "alice_task ''userId'' = Some (JStr ''alice'')"
    by (simp_all add: alice_task_def new_task_def)
  have b: "?b ''id'' = Some (JStr ''t1'')" "?b ''userId'' = Some (JStr ''bob'')"
    "?b ''completed'' = Some (JBool False)"
    by (simp_all add: spread_def take_id_def bob_task_def new_task_def)
  have w: "write_ok env1"
    by (simp add: env1_def)
  show ?thesis
    by (simp add: disk_dup_tasks a b w updateTask_cases toggle_cases deleteTask_cases
          splice1_def del: fun_upd_apply)
qed

text \<open>
  C1, amended. Let \<open>T\<close> be a task of the collection with id \<open>taskId\<close> owned by \<open>userA\<close>,
  and \<open>userB\<close> another user id. After \<^verbatim>\<open>updateTask\<close>, \<^verbatim>\<open>deleteTask\<close> and
  \<^verbatim>\<open>toggleTaskCompletion\<close> called with \<open>taskId\<close> and \<open>userB\<close>, \<open>T\<close> is in the collection
  as it was. When no task of the collection carries \<open>taskId\<close> together with \<open>userB\<close>, the
  three calls return the not-found failure and leave the disk, and so the whole
  collection, as it was; this is so whenever the task ids of the collection are unique.
\<close>

theorem other_users_tasks_untouched:
  assumes "T \<in> set (getTasks d (Some JNull))"
    and "T ''id'' = taskId" and "T ''userId'' = userA" and "userB \<noteq> userA"
  shows "T \<in> set (getTasks (snd (updateTask d e taskId userB data)) (Some JNull)) \<and>
         T \<in> set (getTasks (snd (deleteTask d e taskId userB)) (Some JNull)) \<and>
         T \<in> set (getTasks (snd (toggleTaskCompletion d e taskId userB)) (Some JNull)) \<and>
         ((\<forall>task \<in> set (getTasks d (Some JNull)). \<not> owned taskId userB task) \<longrightarrow>
            updateTask d e taskId userB data = (Inl TaskNotFound, d) \<and>
            deleteTask d e taskId userB = (Inl TaskNotFound, d) \<and>
            toggleTaskCompletion d e taskId userB = (Inl TaskNotFound, d) \<and>
            kind_of TaskNotFound = NotFound) \<and>
         (distinct (map (\<lambda>task. task ''id'') (getTasks d (Some JNull))) \<longrightarrow>
            (\<forall>task \<in> set (getTasks d (Some JNull)). \<not> owned taskId userB task))"
proof (intro conjI impI)
  have other: "T ''userId'' \<noteq> userB"
    using assms(3,4) by simp
  from update_frame [of d e taskId userB data]
  show "T \<in> set (getTasks (snd (updateTask d e taskId userB data)) (Some JNull))"
    using kept_by_index [OF assms(1) other] by blast
  from delete_frame [of userB d e taskId]
  show "T \<in> set (getTasks (snd (deleteTask d e taskId userB)) (Some JNull))"
    using kept_by_filter [OF assms(1) other] by blast
  from toggle_frame [of d e taskId userB]
  show "T \<in> set (getTasks (snd (toggleTaskCompletion d e taskId userB)) (Some JNull))"
    using kept_by_index [OF assms(1) other] by blast
next
  assume "\<forall>task \<in> set (getTasks d (Some JNull)). \<not> owned taskId userB task"
  then have none: "findIndex (\<lambda>task. task ''id'' = taskId \<and> task ''userId'' = userB)
          (getTasks d (Some JNull)) = None"
    by (simp add: findIndex_None_iff owned_def)
  then show "updateTask d e taskId userB data = (Inl TaskNotFound, d)"
    by (simp add: updateTask_cases)
  from none show "deleteTask d e taskId userB = (Inl TaskNotFound, d)"
    by (simp add: deleteTask_cases)
  from none show "toggleTaskCompletion d e taskId userB = (Inl TaskNotFound, d)"
    by (simp add: toggle_cases)
  show "kind_of TaskNotFound = NotFound" by simp
next
  assume "distinct (map (\<lambda>task. task ''id'') (getTasks d (Some JNull)))"
  from no_match_of_distinct [OF assms this]
  show "\<forall>task \<in> set (getTasks d (Some JNull)). \<not> owned taskId userB task"
    by (simp add: findIndex_None_iff owned_def)
qed

theorem other_users_tasks_untouched_witness:
  "updateTask disk1 env1 (Some (JStr ''t1'')) (Some (JStr ''bob'')) retitle =
     (Inl TaskNotFound, disk1) \<and>
   deleteTask disk1 env1 (Some (JStr ''t1'')) (Some (JStr ''bob'')) = (Inl TaskNotFound, disk1) \<and>
   toggleTaskCompletion disk1 env1 (Some (JStr ''t1'')) (Some (JStr ''bob'')) =
     (Inl TaskNotFound, disk1) \<and>
   alice_task \<in> set (getTasks (snd (updateTask disk_dup env1 (Some (JStr ''t1''))
      (Some (JStr ''bob'')) retitle)) (Some JNull)) \<and>
   alice_task \<in> set (getTasks (snd (deleteTask disk_dup env1 (Some (JStr ''t1''))
      (Some (JStr ''bob'')))) (Some JNull)) \<and>
   alice_task \<in> set (getTasks (snd (toggleTaskCompletion disk_dup env1 (Some (JStr ''t1''))
      (Some (JStr ''bob'')))) (Some JNull))"
proof -
  have ts: "getTasks disk1 (Some JNull) = [alice_task, bob_task]"
    by (simp add: getTasks_def disk1_def)
  have a: "alice_task ''id'' = Some (JStr ''t1'')" "alice_task ''userId'' = Some (JStr ''alice'')"
    and b: "bob_task ''id'' = Some (JStr ''t2'')"
    by (simp_all add: alice_task_def bob_task_def new_task_def)
  have in1: "alice_task \<in> set (getTasks disk1 (Some JNull))"
    by (simp add: ts)
  have in2: "alice_task \<in> set (getTasks disk_dup (Some JNull))"
    by (simp add: disk_dup_tasks)
  have ne: "Some (JStr ''bob'') \<noteq> Some (JStr ''alice'')" by simp
  have free: "\<forall>task \<in> set (getTasks disk1 (Some JNull)).
      \<not> owned (Some (JStr ''t1'')) (Some (JStr ''bob'')) task"
    by (simp add: ts owned_def a b)
  from other_users_tasks_untouched [OF in1 a ne, of env1 retitle] free
    other_users_tasks_untouched [OF in2 a ne, of env1 retitle]
  show ?thesis
    by blast
qed

section \<open>Empty titles\<close>

text \<open>
  C2. A title that is empty after sanitization must be refused with the validation error
  and no new record. The route requires a title, but tests it as received and sanitizes it
  afterwards: a title of spaces, or of spaces around angle brackets, passes the test, is
  sanitized to the empty string, and is stored as the title of a new record, with
  success. Only the title that is empty as received is refused.
\<close>

theorem whitespace_title_is_stored:
  "post_api_tasks disk1 env1 (Some (JStr ''alice'')) blank_title =
     (Inr (), disk1\<lparr>tasks_file := Some [alice_task, bob_task,
        new_task ''t3'' (Some (JStr ''alice'')) (Some (JStr '''')) (Some (JStr ''''))
          (Some (JStr ''medium'')) ''2024-02-01'' ''2024-02-02'']\<rparr>) \<and>
   post_api_tasks disk1 env1 (Some (JStr ''alice'')) angle_title =
     (Inr (), disk1\<lparr>tasks_file := Some [alice_task, bob_task,
        new_task ''t3'' (Some (JStr ''alice'')) (Some (JStr '''')) (Some (JStr ''''))
          (Some (JStr ''high'')) ''2024-02-01'' ''2024-02-02'']\<rparr>) \<and>
   post_api_tasks disk1 env1 (Some (JStr ''alice'')) empty_title = (Inl TitleRequired, disk1)"
proof -
  have ts: "getTasks disk1 (Some JNull) = [alice_task, bob_task]"
    by (simp add: getTasks_def disk1_def)
  have e: "write_ok env1" "gen_id env1 = ''t3''" "now1 env1 = ''2024-02-01''"
    "now2 env1 = ''2024-02-02''"
    by (simp_all add: env1_def)
  have b: "post_api_tasks disk1 env1 (Some (JStr ''alice'')) blank_title =
     (Inr (), disk1\<lparr>tasks_file := Some [alice_task, bob_task,
        new_task ''t3'' (Some (JStr ''alice'')) (Some (JStr '''')) (Some (JStr ''''))
          (Some (JStr ''medium'')) ''2024-02-01'' ''2024-02-02'']\<rparr>)"
    by (simp add: post_api_tasks_def blank_title_def sanitizeInput_def js_or_def trim_blank
          createTask_cases ts e default_param_def)
       (simp add: trim_def is_js_space_def)
  have a: "post_api_tasks disk1 env1 (Some (JStr ''alice'')) angle_title =
     (Inr (), disk1\<lparr>tasks_file := Some [alice_task, bob_task,
        new_task ''t3'' (Some (JStr ''alice'')) (Some (JStr '''')) (Some (JStr ''''))
          (Some (JStr ''high'')) ''2024-02-01'' ''2024-02-02'']\<rparr>)"
    by (simp add: post_api_tasks_def angle_title_def sanitizeInput_def js_or_def trim_angle
          createTask_cases ts e default_param_def)
       (simp add: trim_def is_js_space_def)
  have n: "post_api_tasks disk1 env1 (Some (JStr ''alice'')) empty_title = (Inl TitleRequired, disk1)"
    by (simp add: post_api_tasks_def empty_title_def)
  from b a n show ?thesis
    by simp
qed

section \<open>Unique usernames and emails\<close>

lemma users_unique_createUser:
  assumes "users_unique (getUsers d)"
  shows "users_unique (getUsers (snd (createUser sha256hex d e username email password)))"
proof (cases "\<exists>user \<in> set (getUsers d). user ''username'' = username \<or> user ''email'' = email")
  case True
  with assms show ?thesis by (simp add: createUser_cases)
next
  case False
  show ?thesis
  proof (cases "write_ok e")
    case True
    from False have "username \<notin> (\<lambda>user. user ''username'') ` set (getUsers d)"
      and "email \<notin> (\<lambda>user. user ''email'') ` set (getUsers d)"
      by auto
    with assms False True show ?thesis
      by (simp add: createUser_cases getUsers_saved users_unique_def new_user_fields)
  next
    case wfail: False
    with assms False show ?thesis by (simp add: createUser_cases)
  qed
qed

lemma users_unique_createUsers:
  "users_unique (getUsers d) \<Longrightarrow> users_unique (getUsers (createUsers sha256hex d calls))"
proof (induction calls arbitrary: d)
  case Nil
  then show ?case by simp
next
  case (Cons call calls)
  obtain e username email password where call: "call = (e, username, email, password)"
    by (cases call) auto
  from Cons.prems have "users_unique (getUsers (snd (createUser sha256hex d e username email password)))"
    by (rule users_unique_createUser)
  from Cons.IH [OF this] show ?case
    by (simp add: call)
qed

text \<open>
  C3. In every state reached from an empty user collection by a sequence of
  \<^verbatim>\<open>createUser\<close> calls, no two user records share a username and no two share an email
  (equality of strings, hence case-sensitive); and there a \<^verbatim>\<open>createUser\<close> call whose
  username or email is that of a stored record returns the conflict failure and leaves
  the disk, and so the collection, as it was.
\<close>

theorem createUser_uniqueness:
  assumes "getUsers d0 = []" and "d = createUsers sha256hex d0 calls"
  shows "users_unique (getUsers d) \<and>
         ((\<exists>user \<in> set (getUsers d). user ''username'' = username \<or> user ''email'' = email) \<longrightarrow>
            createUser sha256hex d e username email password = (Inl UserExists, d) \<and>
            kind_of UserExists = Conflict)"
proof -
  have "users_unique (getUsers d0)"
    using assms(1) by (simp add: users_unique_def)
  then have "users_unique (getUsers d)"
    unfolding assms(2) by (rule users_unique_createUsers)
  then show ?thesis
    by (simp add: createUser_cases)
qed

theorem createUser_uniqueness_witness:
  "users_unique (getUsers two_users) \<and> length (getUsers two_users) = 2 \<and>
   createUser toy_digest two_users env1 (Some (JStr ''carol'')) (Some (JStr ''bob@example.org''))
     ''secret'' = (Inl UserExists, two_users)"
proof -
  have "getUsers disk0 = []"
    by (simp add: getUsers_def disk0_def)
  moreover have "\<exists>user \<in> set (getUsers two_users).
      user ''username'' = Some (JStr ''carol'') \<or> user ''email'' = Some (JStr ''bob@example.org'')"
    by (simp add: two_users_eq getUsers_def new_user_fields)
  moreover have "length (getUsers two_users) = 2"
    by (simp add: two_users_eq getUsers_def)
  ultimately show ?thesis
    using createUser_uniqueness [OF _ two_users_def, where e = env1
        and username = "Some (JStr ''carol'')" and email = "Some (JStr ''bob@example.org'')"
        and password = "''secret''"]
    by simp
qed

section \<open>Identity of a task under update\<close>

text \<open>
  The spread copies every key of the patch: a patch that holds \<^verbatim>\<open>id\<close> and \<^verbatim>\<open>userId\<close>
  overwrites both. Here the update succeeds and Alice's task \<open>t1\<close> becomes task \<open>t9\<close> of Bob.
\<close>

theorem update_overwrites_identity:
  "fst (updateTask disk1 env1 (Some (JStr ''t1'')) (Some (JStr ''alice'')) rekey) = Inr () \<and>
   (getTasks disk1 (Some JNull) ! 0) ''id'' = Some (JStr ''t1'') \<and>
   (getTasks disk1 (Some JNull) ! 0) ''userId'' = Some (JStr ''alice'') \<and>
   (getTasks (snd (updateTask disk1 env1 (Some (JStr ''t1'')) (Some (JStr ''alice'')) rekey))
      (Some JNull) ! 0) ''id'' = Some (JStr ''t9'') \<and>
   (getTasks (snd (updateTask disk1 env1 (Some (JStr ''t1'')) (Some (JStr ''alice'')) rekey))
      (Some JNull) ! 0) ''userId'' = Some (JStr ''bob'')"
proof -
  have ts: "getTasks disk1 (Some JNull) = [alice_task, bob_task]"
    by (simp add: getTasks_def disk1_def)
  have ids: "alice_task ''id'' = Some (JStr ''t1'')" "alice_task ''userId'' = Some (JStr ''alice'')"
    by (simp_all add: alice_task_def new_task_def)
  have w: "write_ok env1"
    by (simp add: env1_def)
  show ?thesis
    by (simp add: updateTask_cases ts ids w getTasks_saved spread_def rekey_def)
qed

text \<open>
  C4, amended. For every task, every requesting user id and every patch that holds
  neither the key \<^verbatim>\<open>id\<close> nor the key \<^verbatim>\<open>userId\<close>: after a successful update the id and
  the userId of every task of the collection, the updated one included, are what they
  were before.
\<close>

theorem update_keeps_identity:
  assumes "updateTask d e taskId userId data = (Inr u, d')"
    and "data ''id'' = None" and "data ''userId'' = None"
  shows "map (\<lambda>task. (task ''id'', task ''userId'')) (getTasks d' (Some JNull)) =
         map (\<lambda>task. (task ''id'', task ''userId'')) (getTasks d (Some JNull))"
proof -
  let ?ts = "getTasks d (Some JNull)"
  from updateTask_Inr [OF assms(1)] obtain i where
    d': "d' = d\<lparr>tasks_file := Some (?ts
               [i := (spread (?ts ! i) data)(''updatedAt'' \<mapsto> JStr (now1 e))])\<rparr>"
    and i: "findIndex (\<lambda>task. task ''id'' = taskId \<and> task ''userId'' = userId) ?ts = Some i"
    by blast
  from findIndex_Some_D [OF i] have len: "i < length ?ts"
    by simp
  let ?f = "\<lambda>task::obj. (task ''id'', task ''userId'')"
  have same: "?f ((spread (?ts ! i) data)(''updatedAt'' \<mapsto> JStr (now1 e))) = ?f (?ts ! i)"
    using assms(2,3) by (simp add: spread_def)
  have "map ?f (getTasks d' (Some JNull)) = (map ?f ?ts)[i := ?f (?ts ! i)]"
    unfolding d' getTasks_saved map_update same ..
  also have "\<dots> = map ?f ?ts"
    using len by (simp add: list_update_same_conv)
  finally show ?thesis .
qed

theorem update_keeps_identity_witness:
  "map (\<lambda>task. (task ''id'', task ''userId''))
     (getTasks (snd (updateTask disk1 env1 (Some (JStr ''t1'')) (Some (JStr ''alice'')) retitle))
        (Some JNull)) =
   [(Some (JStr ''t1''), Some (JStr ''alice'')), (Some (JStr ''t2''), Some (JStr ''bob''))]"
proof -
  have ts: "getTasks disk1 (Some JNull) = [alice_task, bob_task]"
    by (simp add: getTasks_def disk1_def)
  have ids: "alice_task ''id'' = Some (JStr ''t1'')" "alice_task ''userId'' = Some (JStr ''alice'')"
    "bob_task ''id'' = Some (JStr ''t2'')" "bob_task ''userId'' = Some (JStr ''bob'')"
    by (simp_all add: alice_task_def bob_task_def new_task_def)
  have w: "write_ok env1"
    by (simp add: env1_def)
  have ok: "updateTask disk1 env1 (Some (JStr ''t1'')) (Some (JStr ''alice'')) retitle =
      (Inr (), snd (updateTask disk1 env1 (Some (JStr ''t1'')) (Some (JStr ''alice'')) retitle))"
    by (simp add: updateTask_cases ts ids w)
  have "retitle ''id'' = None" "retitle ''userId'' = None"
    by (simp_all add: retitle_def)
  from update_keeps_identity [OF ok this] show ?thesis
    by (simp add: ts ids)
qed

section \<open>Authentication\<close>

text \<open>
  C5. \<^verbatim>\<open>authenticateUser\<close> succeeds, with the view of a stored user whose credentials
  match, when some stored user has the identifier as username or email and the digest of
  the password as stored digest; it returns the unauthorized failure when no stored user
  does. A view holds no property but \<^verbatim>\<open>id\<close>, \<^verbatim>\<open>username\<close> and \<^verbatim>\<open>email\<close>, so neither
  the digest nor a password. A successful \<^verbatim>\<open>createUser\<close> appends the record of the id,
  the username, the email, the digest and the creation time: its \<^verbatim>\<open>password\<close> property
  is the digest, which is not the plaintext wherever the digest of a password differs
  from it, and the new user authenticates with that password.
\<close>

theorem authenticate_contract:
  "((\<exists>user \<in> set (getUsers d). credentials_match sha256hex ident password user) \<longrightarrow>
      (\<exists>user \<in> set (getUsers d). credentials_match sha256hex ident password user \<and>
         authenticateUser sha256hex d ident password = Inr (user_view user))) \<and>
   (\<not> (\<exists>user \<in> set (getUsers d). credentials_match sha256hex ident password user) \<longrightarrow>
      authenticateUser sha256hex d ident password = Inl BadCredentials \<and>
      kind_of BadCredentials = Unauthorized) \<and>
   dom (user_view user) \<subseteq> {''id'', ''username'', ''email''} \<and>
   (createUser sha256hex d e username email password = (Inr uid, d') \<longrightarrow>
      getUsers d' = getUsers d @ [new_user uid username email (sha256hex password) (now1 e)] \<and>
      last (getUsers d') ''password'' = Some (JStr (sha256hex password)) \<and>
      (sha256hex password \<noteq> password \<longrightarrow> last (getUsers d') ''password'' \<noteq> Some (JStr password)) \<and>
      (\<exists>view. authenticateUser sha256hex d' username password = Inr view))"
proof (intro conjI impI)
  assume "\<exists>user \<in> set (getUsers d). credentials_match sha256hex ident password user"
  then obtain user where
    "find (credentials_match sha256hex ident password) (getUsers d) = Some user"
    by (cases "find (credentials_match sha256hex ident password) (getUsers d)")
       (auto simp: find_None_iff)
  moreover from this have "user \<in> set (getUsers d)"
    "credentials_match sha256hex ident password user"
    by (auto simp: find_Some_iff)
  ultimately show "\<exists>user \<in> set (getUsers d). credentials_match sha256hex ident password user \<and>
         authenticateUser sha256hex d ident password = Inr (user_view user)"
    by (auto simp: authenticateUser_cases)
next
  assume "\<not> (\<exists>user \<in> set (getUsers d). credentials_match sha256hex ident password user)"
  then have "find (credentials_match sha256hex ident password) (getUsers d) = None"
    by (simp add: find_None_iff)
  then show "authenticateUser sha256hex d ident password = Inl BadCredentials"
    by (simp add: authenticateUser_cases)
next
  show "kind_of BadCredentials = Unauthorized" by simp
next
  show "dom (user_view user) \<subseteq> {''id'', ''username'', ''email''}"
    by (rule dom_user_view)
next
  assume ok: "createUser sha256hex d e username email password = (Inr uid, d')"
  then have d': "d' = d\<lparr>users_file := Some (getUsers d @
              [new_user (gen_id e) username email (sha256hex password) (now1 e)])\<rparr>"
    and uid: "uid = gen_id e"
    by (auto simp: createUser_cases split: if_splits)
  show stored: "getUsers d' = getUsers d @ [new_user uid username email (sha256hex password) (now1 e)]"
    by (simp add: d' uid getUsers_saved)
  then show pw: "last (getUsers d') ''password'' = Some (JStr (sha256hex password))"
    by (simp add: new_user_fields)
  {
    assume "sha256hex password \<noteq> password"
    with pw show "last (getUsers d') ''password'' \<noteq> Some (JStr password)"
      by simp
  }
  have "credentials_match sha256hex username password
          (new_user uid username email (sha256hex password) (now1 e))"
    by (simp add: credentials_match_def new_user_fields)
  then have "find (credentials_match sha256hex username password) (getUsers d') \<noteq> None"
    by (auto simp: stored find_None_iff)
  then show "\<exists>view. authenticateUser sha256hex d' username password = Inr view"
    by (auto simp: authenticateUser_cases split: option.splits)
qed

theorem authenticate_contract_witness:
  "authenticateUser toy_digest two_users (Some (JStr ''bob@example.org'')) ''builder'' =
     Inr (Map.empty(''id'' \<mapsto> JStr ''u2'', ''username'' \<mapsto> JStr ''Alice'',
                    ''email'' \<mapsto> JStr ''bob@example.org'')) \<and>
   authenticateUser toy_digest two_users (Some (JStr ''alice'')) ''builder'' = Inl BadCredentials \<and>
   last (getUsers (snd (createUser toy_digest two_users env1 (Some (JStr ''carol''))
           (Some (JStr ''carol@example.org'')) ''secret''))) ''password'' = Some (JStr ''#terces'') \<and>
   (\<exists>view. authenticateUser toy_digest
      (snd (createUser toy_digest two_users env1 (Some (JStr ''carol''))
           (Some (JStr ''carol@example.org'')) ''secret''))
      (Some (JStr ''carol'')) ''secret'' = Inr view)"
proof -
  let ?u1 = "new_user ''u1'' (Some (JStr ''alice'')) (Some (JStr ''alice@example.org''))
          (toy_digest ''wonderland'') ''2024-01-01''"
  let ?u2 = "new_user ''u2'' (Some (JStr ''Alice'')) (Some (JStr ''bob@example.org''))
          (toy_digest ''builder'') ''2024-01-02''"
  have us: "getUsers two_users = [?u1, ?u2]"
    by (simp add: two_users_eq getUsers_def)
  have m1: "\<not> credentials_match toy_digest (Some (JStr ''bob@example.org'')) ''builder'' ?u1"
    by (simp add: credentials_match_def new_user_fields)
  have m2: "credentials_match toy_digest (Some (JStr ''bob@example.org'')) ''builder'' ?u2"
    by (simp add: credentials_match_def new_user_fields)
  have n1: "\<not> credentials_match toy_digest (Some (JStr ''alice'')) ''builder'' ?u1"
    by (simp add: credentials_match_def new_user_fields toy_digest_def)
  have n2: "\<not> credentials_match toy_digest (Some (JStr ''alice'')) ''builder'' ?u2"
    by (simp add: credentials_match_def new_user_fields)
  have view: "user_view ?u2 = Map.empty(''id'' \<mapsto> JStr ''u2'', ''username'' \<mapsto> JStr ''Alice'',
                    ''email'' \<mapsto> JStr ''bob@example.org'')"
    by (auto simp: user_view_def new_user_fields fun_eq_iff)
  have c: "createUser toy_digest two_users env1 (Some (JStr ''carol''))
           (Some (JStr ''carol@example.org'')) ''secret'' =
        (Inr ''t3'', snd (createUser toy_digest two_users env1 (Some (JStr ''carol''))
           (Some (JStr ''carol@example.org'')) ''secret''))"
    by (simp add: createUser_cases us new_user_fields env1_def)
  have ok: "authenticateUser toy_digest two_users (Some (JStr ''bob@example.org'')) ''builder'' =
     Inr (user_view ?u2)"
    using authenticate_contract [where d = two_users and sha256hex = toy_digest
        and ident = "Some (JStr ''bob@example.org'')" and password = "''builder''"]
      us m1 m2
    by auto
  have bad: "authenticateUser toy_digest two_users (Some (JStr ''alice'')) ''builder'' = Inl BadCredentials"
    using authenticate_contract [where d = two_users and sha256hex = toy_digest
        and ident = "Some (JStr ''alice'')" and password = "''builder''"]
      us n1 n2
    by auto
  have new: "last (getUsers (snd (createUser toy_digest two_users env1 (Some (JStr ''carol''))
           (Some (JStr ''carol@example.org'')) ''secret''))) ''password'' = Some (JStr ''#terces'') \<and>
   (\<exists>view. authenticateUser toy_digest
      (snd (createUser toy_digest two_users env1 (Some (JStr ''carol''))
           (Some (JStr ''carol@example.org'')) ''secret''))
      (Some (JStr ''carol'')) ''secret'' = Inr view)"
    using authenticate_contract [where d = two_users and sha256hex = toy_digest
        and e = env1 and username = "Some (JStr ''carol'')"
        and email = "Some (JStr ''carol@example.org'')" and password = "''secret''"
        and uid = "''t3''"
        and d' = "snd (createUser toy_digest two_users env1 (Some (JStr ''carol''))
           (Some (JStr ''carol@example.org'')) ''secret'')"]
      c
    by (simp add: toy_digest_def new_user_fields)
  from ok bad new view show ?thesis
    by simp
qed

section \<open>Statistics\<close>

lemma three_way_count:
  assumes "a \<noteq> b" "a \<noteq> c" "b \<noteq> c"
  shows "length (filter (\<lambda>x. \<not> fin x \<and> f x = a) xs) +
         length (filter (\<lambda>x. \<not> fin x \<and> f x = b) xs) +
         length (filter (\<lambda>x. \<not> fin x \<and> f x = c) xs) +
         length (filter fin xs) \<le> length xs"
  using assms by (induction xs) auto

text \<open>
  C6. For every user id and every task collection the statistics satisfy
  \<open>total = completed + pending\<close> and \<open>high + medium + low \<le> pending\<close>, and for a user id,
  which is a non-empty token and so truthy, each count by priority is the number of that
  user's incomplete tasks of that priority in the collection: completed tasks are not
  counted. (\<^verbatim>\<open>getTasks\<close> scopes by a truthy user id only; with none it lists all tasks.)
\<close>

theorem stats_consistency:
  "total (getTaskStats d userId) =
     completed (getTaskStats d userId) + pending (getTaskStats d userId) \<and>
   high (byPriority (getTaskStats d userId)) + medium (byPriority (getTaskStats d userId)) +
     low (byPriority (getTaskStats d userId)) \<le> pending (getTaskStats d userId) \<and>
   (truthy userId \<longrightarrow>
      high (byPriority (getTaskStats d userId)) =
        int (length (incomplete_of (getTasks d (Some JNull)) userId ''high'')) \<and>
      medium (byPriority (getTaskStats d userId)) =
        int (length (incomplete_of (getTasks d (Some JNull)) userId ''medium'')) \<and>
      low (byPriority (getTaskStats d userId)) =
        int (length (incomplete_of (getTasks d (Some JNull)) userId ''low'')))"
proof (intro conjI impI)
  show "total (getTaskStats d userId) =
     completed (getTaskStats d userId) + pending (getTaskStats d userId)"
    by (simp add: getTaskStats_def Let_def)
next
  let ?ts = "getTasks d userId"
  have "Some (JStr ''high'') \<noteq> Some (JStr ''medium'')" "Some (JStr ''high'') \<noteq> Some (JStr ''low'')"
    "Some (JStr ''medium'') \<noteq> Some (JStr ''low'')"
    by simp_all
  from three_way_count [OF this, of "\<lambda>task. truthy (task ''completed'')" "\<lambda>task. task ''priority''" ?ts]
  show "high (byPriority (getTaskStats d userId)) + medium (byPriority (getTaskStats d userId)) +
     low (byPriority (getTaskStats d userId)) \<le> pending (getTaskStats d userId)"
    by (simp add: getTaskStats_def Let_def)
next
  assume t: "truthy userId"
  have scoped: "getTasks d userId = filter (\<lambda>task. task ''userId'' = userId) (getTasks d (Some JNull))"
    using t by (simp add: getTasks_def split: option.splits)
  have fuse: "filter (\<lambda>task. \<not> truthy (task ''completed'') \<and> task ''priority'' = Some (JStr p))
            (getTasks d userId) = incomplete_of (getTasks d (Some JNull)) userId p" for p
    unfolding scoped incomplete_of_def filter_filter
    by (rule filter_cong) auto
  show "high (byPriority (getTaskStats d userId)) =
        int (length (incomplete_of (getTasks d (Some JNull)) userId ''high''))"
    by (simp add: getTaskStats_def Let_def fuse)
  show "medium (byPriority (getTaskStats d userId)) =
        int (length (incomplete_of (getTasks d (Some JNull)) userId ''medium''))"
    by (simp add: getTaskStats_def Let_def fuse)
  show "low (byPriority (getTaskStats d userId)) =
        int (length (incomplete_of (getTasks d (Some JNull)) userId ''low''))"
    by (simp add: getTaskStats_def Let_def fuse)
qed

theorem stats_consistency_witness:
  "total (getTaskStats disk1 (Some (JStr ''alice''))) = 1 \<and>
   completed (getTaskStats disk1 (Some (JStr ''alice''))) = 0 \<and>
   pending (getTaskStats disk1 (Some (JStr ''alice''))) = 1 \<and>
   high (byPriority (getTaskStats disk1 (Some (JStr ''alice'')))) = 1 \<and>
   medium (byPriority (getTaskStats disk1 (Some (JStr ''alice'')))) = 0 \<and>
   low (byPriority (getTaskStats disk1 (Some (JStr ''alice'')))) = 0"
proof -
  have ts: "getTasks disk1 (Some JNull) = [alice_task, bob_task]"
    by (simp add: getTasks_def disk1_def)
  have f: "alice_task ''userId'' = Some (JStr ''alice'')" "bob_task ''userId'' = Some (JStr ''bob'')"
    "alice_task ''completed'' = Some (JBool False)" "alice_task ''priority'' = Some (JStr ''high'')"
    by (simp_all add: alice_task_def bob_task_def new_task_def)
  have own: "getTasks disk1 (Some (JStr ''alice'')) = [alice_task]"
    by (simp add: getTasks_def disk1_def f)
  have t: "total (getTaskStats disk1 (Some (JStr ''alice''))) = 1"
    "completed (getTaskStats disk1 (Some (JStr ''alice''))) = 0"
    by (simp_all add: getTaskStats_def Let_def own f)
  have "truthy (Some (JStr ''alice''))" by simp
  with stats_consistency [of disk1 "Some (JStr ''alice'')"] t show ?thesis
    by (simp add: ts incomplete_of_def f)
qed

section \<open>Failures of the durable read and write\<close>

text \<open>
  C7. When the users file, or the tasks file, cannot be read, every read operation on
  it answers as it does on the empty collection: \<^verbatim>\<open>getUsers\<close> and \<^verbatim>\<open>getTasks\<close> return
  the empty list, \<^verbatim>\<open>getUserById\<close>, \<^verbatim>\<open>authenticateUser\<close> and \<^verbatim>\<open>getTaskStats\<close> what
  they return on a file holding \<open>[]\<close>. When the write fails, each of \<^verbatim>\<open>createUser\<close>,
  \<^verbatim>\<open>createTask\<close>, \<^verbatim>\<open>updateTask\<close>, \<^verbatim>\<open>deleteTask\<close> and \<^verbatim>\<open>toggleTaskCompletion\<close> returns
  a failure, never a success, and the disk is as it was.
\<close>

theorem persistence_failures:
  "(users_file d = None \<longrightarrow>
      getUsers d = [] \<and>
      getUserById d uid = getUserById (d\<lparr>users_file := Some []\<rparr>) uid \<and>
      authenticateUser sha256hex d ident password =
        authenticateUser sha256hex (d\<lparr>users_file := Some []\<rparr>) ident password) \<and>
   (tasks_file d = None \<longrightarrow>
      getTasks d userId = [] \<and>
      getTaskStats d userId = getTaskStats (d\<lparr>tasks_file := Some []\<rparr>) userId) \<and>
   (\<not> write_ok e \<longrightarrow>
      (\<exists>f. createUser sha256hex d e username email password = (Inl f, d)) \<and>
      (\<exists>f. createTask d e userId title description priority = (Inl f, d)) \<and>
      (\<exists>f. updateTask d e taskId userId data = (Inl f, d)) \<and>
      (\<exists>f. deleteTask d e taskId userId = (Inl f, d)) \<and>
      (\<exists>f. toggleTaskCompletion d e taskId userId = (Inl f, d)))"
proof (intro conjI impI)
  assume u: "users_file d = None"
  then show "getUsers d = []"
    by (rule getUsers_unreadable)
  from u show "getUserById d uid = getUserById (d\<lparr>users_file := Some []\<rparr>) uid"
    by (simp add: getUserById_def getUsers_unreadable getUsers_saved)
  from u show "authenticateUser sha256hex d ident password =
        authenticateUser sha256hex (d\<lparr>users_file := Some []\<rparr>) ident password"
    by (simp add: authenticateUser_def getUsers_unreadable getUsers_saved)
next
  assume t: "tasks_file d = None"
  then show "getTasks d userId = []"
    by (rule getTasks_unreadable)
  from t show "getTaskStats d userId = getTaskStats (d\<lparr>tasks_file := Some []\<rparr>) userId"
    by (simp add: getTaskStats_def getTasks_def)
next
  assume w: "\<not> write_ok e"
  then show "\<exists>f. createUser sha256hex d e username email password = (Inl f, d)"
    by (simp add: createUser_cases)
  from w show "\<exists>f. createTask d e userId title description priority = (Inl f, d)"
    by (simp add: createTask_cases)
  from w show "\<exists>f. updateTask d e taskId userId data = (Inl f, d)"
    by (simp add: updateTask_cases split: option.splits)
  from w show "\<exists>f. deleteTask d e taskId userId = (Inl f, d)"
    by (simp add: deleteTask_cases split: option.splits)
  from w show "\<exists>f. toggleTaskCompletion d e taskId userId = (Inl f, d)"
    by (simp add: toggle_cases split: option.splits)
qed

theorem persistence_failures_witness:
  "getUsers disk_unreadable = [] \<and>
   getTasks disk_unreadable (Some (JStr ''alice'')) = [] \<and>
   authenticateUser toy_digest disk_unreadable (Some (JStr ''alice'')) ''wonderland'' =
     Inl BadCredentials \<and>
   total (getTaskStats disk_unreadable (Some (JStr ''alice''))) = 0 \<and>
   createTask disk1 env_fail (Some (JStr ''alice'')) (Some (JStr ''Call'')) None None =
     (Inl ErrCreateTask, disk1) \<and>
   toggleTaskCompletion disk1 env_fail (Some (JStr ''t1'')) (Some (JStr ''alice'')) =
     (Inl ErrUpdateTask, disk1) \<and>
   deleteTask disk1 env_fail (Some (JStr ''t1'')) (Some (JStr ''alice'')) =
     (Inl ErrDeleteTask, disk1)"
proof -
  have u: "users_file disk_unreadable = None" and t: "tasks_file disk_unreadable = None"
    by (simp_all add: disk_unreadable_def)
  have w: "\<not> write_ok env_fail"
    by (simp add: env_fail_def)
  have ts: "getTasks disk1 (Some JNull) = [alice_task, bob_task]"
    by (simp add: getTasks_def disk1_def)
  have ids: "alice_task ''id'' = Some (JStr ''t1'')" "alice_task ''userId'' = Some (JStr ''alice'')"
    by (simp_all add: alice_task_def new_task_def)
  have a: "authenticateUser toy_digest (disk_unreadable\<lparr>users_file := Some []\<rparr>)
             (Some (JStr ''alice'')) ''wonderland'' = Inl BadCredentials"
    by (simp add: authenticateUser_def getUsers_saved)
  have s: "total (getTaskStats (disk_unreadable\<lparr>tasks_file := Some []\<rparr>) (Some (JStr ''alice''))) = 0"
    by (simp add: getTaskStats_def getTasks_def)
  have c: "fst (createTask disk1 env_fail (Some (JStr ''alice'')) (Some (JStr ''Call'')) None None)
             = Inl ErrCreateTask"
    by (simp add: createTask_cases w)
  have g: "fst (toggleTaskCompletion disk1 env_fail (Some (JStr ''t1'')) (Some (JStr ''alice'')))
             = Inl ErrUpdateTask"
    by (simp add: toggle_cases w ts ids)
  have r: "fst (deleteTask disk1 env_fail (Some (JStr ''t1'')) (Some (JStr ''alice'')))
             = Inl ErrDeleteTask"
    by (simp add: deleteTask_cases w ts ids)
  have p1: "getUsers disk_unreadable = [] \<and>
      authenticateUser toy_digest disk_unreadable (Some (JStr ''alice'')) ''wonderland'' =
        authenticateUser toy_digest (disk_unreadable\<lparr>users_file := Some []\<rparr>)
          (Some (JStr ''alice'')) ''wonderland'' \<and>
      getTasks disk_unreadable (Some (JStr ''alice'')) = [] \<and>
      getTaskStats disk_unreadable (Some (JStr ''alice'')) =
        getTaskStats (disk_unreadable\<lparr>tasks_file := Some []\<rparr>) (Some (JStr ''alice''))"
    using persistence_failures [where d = disk_unreadable and sha256hex = toy_digest
        and ident = "Some (JStr ''alice'')" and password = "''wonderland''"
        and userId = "Some (JStr ''alice'')"] u t
    by blast
  have p2: "(\<exists>f. createTask disk1 env_fail (Some (JStr ''alice'')) (Some (JStr ''Call'')) None None =
               (Inl f, disk1)) \<and>
      (\<exists>f. deleteTask disk1 env_fail (Some (JStr ''t1'')) (Some (JStr ''alice'')) = (Inl f, disk1)) \<and>
      (\<exists>f. toggleTaskCompletion disk1 env_fail (Some (JStr ''t1'')) (Some (JStr ''alice'')) =
               (Inl f, disk1))"
    using persistence_failures [where d = disk1 and e = env_fail
        and userId = "Some (JStr ''alice'')" and title = "Some (JStr ''Call'')"
        and description = None and priority = None and taskId = "Some (JStr ''t1'')"] w
    by blast
  from p1 p2 a s c g r show ?thesis
    by auto
qed

section \<open>Priorities\<close>

lemma priorities_valid_create:
  assumes "priorities_valid d" and "priority = None \<or> valid_priority priority"
  shows "priorities_valid (snd (createTask d e userId title description priority))"
proof (cases "write_ok e")
  case True
  have "valid_priority (default_param priority (JStr ''medium''))"
    using assms(2) by (auto simp: default_param_def valid_priority_def)
  with assms(1) True show ?thesis
    by (simp add: createTask_cases priorities_valid_def getTasks_saved new_task_def)
next
  case False
  with assms(1) show ?thesis by (simp add: createTask_cases)
qed

lemma priorities_valid_update:
  assumes "priorities_valid d"
    and "case data ''priority'' of None \<Rightarrow> True | Some p \<Rightarrow> valid_priority p"
  shows "priorities_valid (snd (updateTask d e taskId userId data))"
proof (cases "findIndex (\<lambda>task. task ''id'' = taskId \<and> task ''userId'' = userId)
                (getTasks d (Some JNull))")
  case None
  with assms(1) show ?thesis by (simp add: updateTask_cases)
next
  case (Some i)
  let ?ts = "getTasks d (Some JNull)"
  let ?t = "(spread (?ts ! i) data)(''updatedAt'' \<mapsto> JStr (now1 e))"
  from findIndex_Some_D [OF Some] have len: "i < length ?ts" by simp
  have all: "\<forall>task \<in> set ?ts. valid_priority (task ''priority'')"
    using assms(1) by (simp add: priorities_valid_def list_all_iff)
  then have "valid_priority ((?ts ! i) ''priority'')"
    using len by simp
  then have new: "valid_priority (?t ''priority'')"
    using assms(2) by (simp add: spread_def split: option.splits)
  have "\<forall>task \<in> set (?ts[i := ?t]). valid_priority (task ''priority'')"
  proof
    fix task assume "task \<in> set (?ts[i := ?t])"
    then have "task = ?t \<or> task \<in> set ?ts"
      using set_update_subset_insert [of ?ts i ?t] by auto
    with all new show "valid_priority (task ''priority'')" by auto
  qed
  with Some assms(1) show ?thesis
    by (simp add: updateTask_cases priorities_valid_def getTasks_saved list_all_iff)
qed

lemma priorities_valid_apply_op:
  "priorities_valid d \<Longrightarrow> supplied_priority_ok op \<Longrightarrow> priorities_valid (apply_op d op)"
  by (cases op) (simp_all add: priorities_valid_create priorities_valid_update)

lemma priorities_valid_foldl:
  "priorities_valid d \<Longrightarrow> list_all supplied_priority_ok ops \<Longrightarrow>
   priorities_valid (foldl apply_op d ops)"
  by (induction ops arbitrary: d) (simp_all add: priorities_valid_apply_op)

text \<open>
  No operation tests a priority: \<^verbatim>\<open>createTask\<close> stores the string it is passed.
\<close>

theorem priority_unchecked:
  "fst (createTask disk1 env1 (Some (JStr ''alice'')) (Some (JStr ''Call'')) None
          (Some (JStr ''urgent''))) = Inr ''t3'' \<and>
   last (getTasks (snd (createTask disk1 env1 (Some (JStr ''alice'')) (Some (JStr ''Call'')) None
          (Some (JStr ''urgent'')))) (Some JNull)) ''priority'' = Some (JStr ''urgent'') \<and>
   \<not> valid_priority (Some (JStr ''urgent''))"
  by (simp add: createTask_cases getTasks_saved new_task_def default_param_def
        valid_priority_def env1_def)

text \<open>
  C8, amended. A created task has the priority the caller passed, and \<open>medium\<close> when none
  was passed. The store does not restrict the value: the priority of every stored task is
  one of low, medium and high after every sequence of create and update operations in
  which each priority the caller supplies (to a create, or under the key \<^verbatim>\<open>priority\<close> of a
  patch) is itself one of the three, starting from a collection where this holds.
\<close>

theorem priority_of_stored_tasks:
  "(createTask d e userId title description priority = (Inr tid, d') \<longrightarrow>
      last (getTasks d' (Some JNull)) ''priority'' =
        (if priority = None then Some (JStr ''medium'') else priority)) \<and>
   (priorities_valid d \<and> list_all supplied_priority_ok ops \<longrightarrow>
      priorities_valid (foldl apply_op d ops))"
proof (intro conjI impI)
  assume "createTask d e userId title description priority = (Inr tid, d')"
  from createTask_Inr [OF this]
  show "last (getTasks d' (Some JNull)) ''priority'' =
        (if priority = None then Some (JStr ''medium'') else priority)"
    by (auto simp: getTasks_saved new_task_def default_param_def)
next
  assume "priorities_valid d \<and> list_all supplied_priority_ok ops"
  then show "priorities_valid (foldl apply_op d ops)"
    by (simp add: priorities_valid_foldl)
qed

theorem priority_of_stored_tasks_witness:
  "last (getTasks (snd (createTask disk1 env1 (Some (JStr ''bob'')) (Some (JStr ''Read'')) None None))
      (Some JNull)) ''priority'' = Some (JStr ''medium'') \<and>
   priorities_valid (foldl apply_op disk1
      [Create env1 (Some (JStr ''bob'')) (Some (JStr ''Read'')) None (Some (JStr ''high'')),
       Update env1 (Some (JStr ''t1'')) (Some (JStr ''alice'')) set_low,
       Create env1 (Some (JStr ''alice'')) (Some (JStr ''Call'')) None None])"
proof -
  have c: "createTask disk1 env1 (Some (JStr ''bob'')) (Some (JStr ''Read'')) None None =
      (Inr ''t3'', snd (createTask disk1 env1 (Some (JStr ''bob'')) (Some (JStr ''Read'')) None None))"
    by (simp add: createTask_cases env1_def)
  have v: "priorities_valid disk1"
    by (simp add: priorities_valid_def getTasks_def disk1_def alice_task_def bob_task_def
          new_task_def valid_priority_def)
  have s: "list_all supplied_priority_ok
      [Create env1 (Some (JStr ''bob'')) (Some (JStr ''Read'')) None (Some (JStr ''high'')),
       Update env1 (Some (JStr ''t1'')) (Some (JStr ''alice'')) set_low,
       Create env1 (Some (JStr ''alice'')) (Some (JStr ''Call'')) None None]"
    by (simp add: set_low_def valid_priority_def)
  show ?thesis
    using priority_of_stored_tasks [where d = disk1 and e = env1 and userId = "Some (JStr ''bob'')"
        and title = "Some (JStr ''Read'')" and description = None and priority = None
        and tid = "''t3''"
        and d' = "snd (createTask disk1 env1 (Some (JStr ''bob'')) (Some (JStr ''Read'')) None None)"
        and ops = "[Create env1 (Some (JStr ''bob'')) (Some (JStr ''Read'')) None (Some (JStr ''high'')),
       Update env1 (Some (JStr ''t1'')) (Some (JStr ''alice'')) set_low,
       Create env1 (Some (JStr ''alice'')) (Some (JStr ''Call'')) None None]"]
      c v s
    by simp
qed

section \<open>The toggle\<close>



section \<open>Frame of the mutations\<close>

text \<open>
  C10. A successful mutation touches at most one record. After \<^verbatim>\<open>createTask\<close> the
  collection is the old one followed by one new record. After \<^verbatim>\<open>updateTask\<close> and after
  \<^verbatim>\<open>toggleTaskCompletion\<close> it is the old one with the record at one position \<open>i\<close>
  replaced, where \<open>i\<close> is the first position whose task matches both the task id and the
  user id. After \<^verbatim>\<open>deleteTask\<close> it is the old one without the record at that position.
  So every other record, those of other users among them, is the same value at the same
  relative place.
\<close>

theorem mutations_touch_one_record:
  "(createTask d e userId title description priority = (Inr tid, d1) \<longrightarrow>
      (\<exists>t. getTasks d1 (Some JNull) = getTasks d (Some JNull) @ [t])) \<and>
   (updateTask d e taskId userId data = (Inr u, d2) \<longrightarrow>
      (\<exists>i t. i < length (getTasks d (Some JNull)) \<and>
             findIndex (owned taskId userId) (getTasks d (Some JNull)) = Some i \<and>
             getTasks d2 (Some JNull) = (getTasks d (Some JNull))[i := t])) \<and>
   (toggleTaskCompletion d e taskId userId = (Inr c, d3) \<longrightarrow>
      (\<exists>i t. i < length (getTasks d (Some JNull)) \<and>
             findIndex (owned taskId userId) (getTasks d (Some JNull)) = Some i \<and>
             getTasks d3 (Some JNull) = (getTasks d (Some JNull))[i := t])) \<and>
   (deleteTask d e taskId userId = (Inr u', d4) \<longrightarrow>
      (\<exists>i. i < length (getTasks d (Some JNull)) \<and>
           findIndex (owned taskId userId) (getTasks d (Some JNull)) = Some i \<and>
           getTasks d4 (Some JNull) =
             take i (getTasks d (Some JNull)) @ drop (Suc i) (getTasks d (Some JNull))))"
proof (intro conjI impI)
  assume "createTask d e userId title description priority = (Inr tid, d1)"
  from createTask_Inr [OF this]
  show "\<exists>t. getTasks d1 (Some JNull) = getTasks d (Some JNull) @ [t]"
    by (auto simp: getTasks_saved)
next
  assume "updateTask d e taskId userId data = (Inr u, d2)"
  from updateTask_Inr [OF this] obtain i where
    i: "findIndex (\<lambda>task. task ''id'' = taskId \<and> task ''userId'' = userId)
          (getTasks d (Some JNull)) = Some i"
    and d2: "d2 = d\<lparr>tasks_file := Some ((getTasks d (Some JNull))
               [i := (spread (getTasks d (Some JNull) ! i) data)(''updatedAt'' \<mapsto> JStr (now1 e))])\<rparr>"
    by blast
  from findIndex_Some_D [OF i] have "i < length (getTasks d (Some JNull))"
    by simp
  with i d2
  show "\<exists>i t. i < length (getTasks d (Some JNull)) \<and>
             findIndex (owned taskId userId) (getTasks d (Some JNull)) = Some i \<and>
             getTasks d2 (Some JNull) = (getTasks d (Some JNull))[i := t]"
    unfolding owned_def by (auto simp: getTasks_saved)
next
  assume "toggleTaskCompletion d e taskId userId = (Inr c, d3)"
  from toggle_Inr [OF this] obtain i where
    i: "findIndex (\<lambda>task. task ''id'' = taskId \<and> task ''userId'' = userId)
          (getTasks d (Some JNull)) = Some i"
    and d3: "d3 = d\<lparr>tasks_file := Some ((getTasks d (Some JNull))
               [i := toggled (now1 e) (getTasks d (Some JNull) ! i)])\<rparr>"
    by blast
  from findIndex_Some_D [OF i] have "i < length (getTasks d (Some JNull))"
    by simp
  with i d3
  show "\<exists>i t. i < length (getTasks d (Some JNull)) \<and>
             findIndex (owned taskId userId) (getTasks d (Some JNull)) = Some i \<and>
             getTasks d3 (Some JNull) = (getTasks d (Some JNull))[i := t]"
    unfolding owned_def by (auto simp: getTasks_saved)
next
  assume "deleteTask d e taskId userId = (Inr u', d4)"
  from deleteTask_Inr [OF this] obtain i where
    i: "findIndex (\<lambda>task. task ''id'' = taskId \<and> task ''userId'' = userId)
          (getTasks d (Some JNull)) = Some i"
    and d4: "d4 = d\<lparr>tasks_file := Some (splice1 i (getTasks d (Some JNull)))\<rparr>"
    by blast
  from findIndex_Some_D [OF i] have "i < length (getTasks d (Some JNull))"
    by simp
  with i d4
  show "\<exists>i. i < length (getTasks d (Some JNull)) \<and>
           findIndex (owned taskId userId) (getTasks d (Some JNull)) = Some i \<and>
           getTasks d4 (Some JNull) =
             take i (getTasks d (Some JNull)) @ drop (Suc i) (getTasks d (Some JNull))"
    unfolding owned_def by (auto simp: getTasks_saved splice1_def)
qed

theorem mutations_touch_one_record_witness:
  "(\<exists>t. getTasks (snd (createTask disk1 env1 (Some (JStr ''bob'')) (Some (JStr ''Read'')) None None))
           (Some JNull) = getTasks disk1 (Some JNull) @ [t]) \<and>
   (\<exists>i t. i < length (getTasks disk1 (Some JNull)) \<and>
      findIndex (owned (Some (JStr ''t1'')) (Some (JStr ''alice''))) (getTasks disk1 (Some JNull)) = Some i \<and>
      getTasks (snd (updateTask disk1 env1 (Some (JStr ''t1'')) (Some (JStr ''alice'')) retitle))
        (Some JNull) = (getTasks disk1 (Some JNull))[i := t]) \<and>
   (\<exists>i t. i < length (getTasks disk1 (Some JNull)) \<and>
      findIndex (owned (Some (JStr ''t2'')) (Some (JStr ''bob''))) (getTasks disk1 (Some JNull)) = Some i \<and>
      getTasks (snd (toggleTaskCompletion disk1 env1 (Some (JStr ''t2'')) (Some (JStr ''bob''))))
        (Some JNull) = (getTasks disk1 (Some JNull))[i := t]) \<and>
   (\<exists>i. i < length (getTasks disk1 (Some JNull)) \<and>
      findIndex (owned (Some (JStr ''t1'')) (Some (JStr ''alice''))) (getTasks disk1 (Some JNull)) = Some i \<and>
      getTasks (snd (deleteTask disk1 env1 (Some (JStr ''t1'')) (Some (JStr ''alice''))))
        (Some JNull) =
        take i (getTasks disk1 (Some JNull)) @ drop (Suc i) (getTasks disk1 (Some JNull)))"
proof -
  have ts: "getTasks disk1 (Some JNull) = [alice_task, bob_task]"
    by (simp add: getTasks_def disk1_def)
  have w: "write_ok env1"
    by (simp add: env1_def)
  have ids: "alice_task ''id'' = Some (JStr ''t1'')" "alice_task ''userId'' = Some (JStr ''alice'')"
    "bob_task ''id'' = Some (JStr ''t2'')" "bob_task ''userId'' = Some (JStr ''bob'')"
    by (simp_all add: alice_task_def bob_task_def new_task_def)
  have c: "fst (createTask disk1 env1 (Some (JStr ''bob'')) (Some (JStr ''Read'')) None None) = Inr ''t3''"
    by (simp add: createTask_def Let_def saveTasks_ok [OF w]) (simp add: env1_def)
  have u: "fst (updateTask disk1 env1 (Some (JStr ''t1'')) (Some (JStr ''alice'')) retitle) = Inr ()"
    by (simp add: updateTask_def Let_def saveTasks_ok [OF w] ts ids)
  have t: "fst (toggleTaskCompletion disk1 env1 (Some (JStr ''t2'')) (Some (JStr ''bob''))) = Inr True"
    by (simp add: toggleTaskCompletion_def Let_def saveTasks_ok [OF w] ts ids)
       (simp add: bob_task_def new_task_def)
  have dl: "fst (deleteTask disk1 env1 (Some (JStr ''t1'')) (Some (JStr ''alice''))) = Inr ()"
    by (simp add: deleteTask_def Let_def saveTasks_ok [OF w] ts ids)
  show ?thesis
    using mutations_touch_one_record [where d = disk1 and e = env1
        and userId = "Some (JStr ''bob'')" and title = "Some (JStr ''Read'')"
        and description = None and priority = None and tid = "''t3''"
        and ?d1.0 = "snd (createTask disk1 env1 (Some (JStr ''bob'')) (Some (JStr ''Read'')) None None)"
        and taskId = "Some (JStr ''t2'')" and c = True
        and ?d3.0 = "snd (toggleTaskCompletion disk1 env1 (Some (JStr ''t2'')) (Some (JStr ''bob'')))"]
      mutations_touch_one_record [where d = disk1 and e = env1
        and userId = "Some (JStr ''alice'')" and taskId = "Some (JStr ''t1'')"
        and data = retitle and u = "()" and u' = "()"
        and ?d2.0 = "snd (updateTask disk1 env1 (Some (JStr ''t1'')) (Some (JStr ''alice'')) retitle)"
        and ?d4.0 = "snd (deleteTask disk1 env1 (Some (JStr ''t1'')) (Some (JStr ''alice'')))"]
      c u t dl
    by (metis prod.collapse)
qed

end
